theory Spec2Isabelle
  imports Complex_Main "HOL-Library.Sublist" "HOL-Library.Multiset"
begin

section \<open>A model of wrapper.py, the MP4Box wrapper\<close>

text \<open>
  The module drives the external program MP4Box: \<open>_get_video_duration\<close> asks it for
  information on a file and reads a duration from the text it prints,
  \<open>_calculate_segment_count\<close> turns that duration into a number of segments,
  \<open>split_videos\<close> runs the program once per segment and \<open>merge_videos\<close> runs it once
  on a sorted directory listing.

  Conventions of the model:
  \<^item> Python \<open>str\<close> is \<open>string\<close>; a \<open>char\<close> stands for a code point below 256.
  \<^item> Python \<open>int\<close> is \<open>int\<close>. A Python \<open>float\<close> is the rational number it stands
    for, and arithmetic on it is exact: neither the rounding of binary64 nor its
    finite range is modelled, so the \<open>OverflowError\<close> of an \<open>int\<close> too large for a
    \<open>float\<close> is not a branch of the model.
  \<^item> An exception is a value \<open>Inl e\<close> of the result type \<open>py_error + 'a\<close>.
  \<^item> The outside world is a value of an arbitrary type \<open>'w\<close>, threaded through every
    call that touches it; the processes that were started are recorded in order,
    each with its exit status.
  \<^item> The program MP4Box can be started and prints decodable text, and the segment
    directory can be listed: \<open>OSError\<close> and \<open>UnicodeDecodeError\<close> are not modelled.
  \<^item> Paths follow \<open>posixpath\<close>.
\<close>

datatype py_error = CalledProcessError | IndexError | ValueError | ZeroDivisionError

subsection \<open>The string methods the module uses\<close>

text \<open>The characters \<open>str.split()\<close> and \<open>str.strip()\<close> treat as whitespace.\<close>

definition is_space :: "char \<Rightarrow> bool" where
  "is_space c \<longleftrightarrow>
     c \<in> set [CHR 0x09, CHR 0x0A, CHR 0x0B, CHR 0x0C, CHR 0x0D, CHR 0x1C, CHR 0x1D,
              CHR 0x1E, CHR 0x1F, CHR 0x20, CHR 0x85, CHR 0xA0]"

text \<open>The characters at which \<open>str.splitlines()\<close> ends a line.\<close>

definition is_linebreak :: "char \<Rightarrow> bool" where
  "is_linebreak c \<longleftrightarrow>
     c \<in> set [CHR 0x0A, CHR 0x0B, CHR 0x0C, CHR 0x0D, CHR 0x1C, CHR 0x1D, CHR 0x1E, CHR 0x85]"

text \<open>
  \<open>s.splitlines()\<close>: the lines of \<open>s\<close> without their line ends; a carriage return
  followed by a line feed is one line end, and a line end at the very end of the text
  does not open another, empty line.
\<close>

fun splitlines :: "string \<Rightarrow> string list" where
  "splitlines [] = []"
| "splitlines [c] = (if is_linebreak c then [[]] else [[c]])"
| "splitlines (c # d # ds) =
     (if c = CHR 0x0D \<and> d = CHR 0x0A then [] # splitlines ds
      else if is_linebreak c then [] # splitlines (d # ds)
      else (case splitlines (d # ds) of
              [] \<Rightarrow> [[c]]
            | l # ls \<Rightarrow> (c # l) # ls))"

text \<open>\<open>s.split()\<close>: the maximal runs of characters that are not whitespace.\<close>

function split_ws :: "string \<Rightarrow> string list" where
  "split_ws s =
     (case dropWhile is_space s of
        [] \<Rightarrow> []
      | c # cs \<Rightarrow> takeWhile (\<lambda>x. \<not> is_space x) (c # cs)
                 # split_ws (dropWhile (\<lambda>x. \<not> is_space x) (c # cs)))"
  by pat_completeness auto
termination
proof (relation "measure length")
  show "wf (measure (length :: string \<Rightarrow> nat))" by simp
next
  fix s :: string and c cs
  assume d: "dropWhile is_space s = c # cs"
  have "\<not> is_space c"
    using d hd_dropWhile [of is_space s] by simp
  then have "length (dropWhile (\<lambda>x. \<not> is_space x) (c # cs)) \<le> length cs"
    by (simp add: length_dropWhile_le)
  moreover have "length (c # cs) \<le> length s"
    using length_dropWhile_le [of is_space s] d by simp
  ultimately show "(dropWhile (\<lambda>x. \<not> is_space x) (c # cs), s) \<in> measure length"
    by simp
qed

declare split_ws.simps [simp del]

text \<open>\<open>s.strip()\<close>: whitespace removed at both ends.\<close>

definition strip :: "string \<Rightarrow> string" where
  "strip s = rev (dropWhile is_space (rev (dropWhile is_space s)))"

text \<open>\<open>s.replace(a, b)\<close> for single characters \<open>a\<close> and \<open>b\<close>.\<close>

definition replace_char :: "char \<Rightarrow> char \<Rightarrow> string \<Rightarrow> string" where
  "replace_char a b s = map (\<lambda>c. if c = a then b else c) s"

text \<open>
  \<open>s.split(sep)\<close> for a single character \<open>sep\<close>: the pieces between the separators,
  empty pieces included; the result is never the empty list.
\<close>

fun split_sep :: "char \<Rightarrow> string \<Rightarrow> string list" where
  "split_sep sep [] = [[]]"
| "split_sep sep (c # cs) =
     (if c = sep then [] # split_sep sep cs
      else (case split_sep sep cs of
              [] \<Rightarrow> [[c]]
            | l # ls \<Rightarrow> (c # l) # ls))"

text \<open>\<open>s.removesuffix(t)\<close>.\<close>

definition removesuffix :: "string \<Rightarrow> string \<Rightarrow> string" where
  "removesuffix t s = (if suffix t s then take (length s - length t) s else s)"

subsection \<open>Integers and text\<close>

definition is_digit :: "char \<Rightarrow> bool" where
  "is_digit c \<longleftrightarrow> c \<in> set ''0123456789''"

definition digit_val :: "char \<Rightarrow> nat" where
  "digit_val c = of_char c - 48"

text \<open>
  The digits of an integer literal after its first digit, with the value read so far:
  digits, each of which may be preceded by one underscore.
\<close>

fun int_digits :: "nat \<Rightarrow> string \<Rightarrow> nat option" where
  "int_digits acc [] = Some acc"
| "int_digits acc [c] = (if is_digit c then Some (10 * acc + digit_val c) else None)"
| "int_digits acc (c # d # ds) =
     (if is_digit c then int_digits (10 * acc + digit_val c) (d # ds)
      else if c = CHR ''_'' \<and> is_digit d then int_digits (10 * acc + digit_val d) ds
      else None)"

definition int_literal :: "string \<Rightarrow> nat option" where
  "int_literal s =
     (case s of
        [] \<Rightarrow> None
      | c # cs \<Rightarrow> if is_digit c then int_digits (digit_val c) cs else None)"

text \<open>
  The characters \<open>int\<close> ignores around a number. They are fewer than those of
  \<open>str.strip()\<close>: the separators U+001C to U+001F are not among them.
\<close>

definition is_int_space :: "char \<Rightarrow> bool" where
  "is_int_space c \<longleftrightarrow>
     c \<in> set [CHR 0x09, CHR 0x0A, CHR 0x0B, CHR 0x0C, CHR 0x0D, CHR 0x20, CHR 0x85, CHR 0xA0]"

text \<open>
  \<open>int(s)\<close> on a string, in base ten: whitespace around the number is ignored, a sign
  may come first, the rest is an integer literal. \<open>None\<close> is Python's \<open>ValueError\<close>.
\<close>

definition py_int :: "string \<Rightarrow> int option" where
  "py_int s =
     (case rev (dropWhile is_int_space (rev (dropWhile is_int_space s))) of
        [] \<Rightarrow> None
      | c # cs \<Rightarrow>
          if c = CHR ''-'' then map_option (\<lambda>n. - int n) (int_literal cs)
          else if c = CHR ''+'' then map_option int (int_literal cs)
          else map_option int (int_literal (c # cs)))"

text \<open>\<open>str(n)\<close> on an integer, as the f-strings of the module format it.\<close>

fun str_nat :: "nat \<Rightarrow> string" where
  "str_nat n =
     (if n < 10 then [''0123456789'' ! n]
      else str_nat (n div 10) @ [''0123456789'' ! (n mod 10)])"

declare str_nat.simps [simp del]

definition str_int :: "int \<Rightarrow> string" where
  "str_int i = (if i < 0 then CHR ''-'' # str_nat (nat (- i)) else str_nat (nat i))"

subsection \<open>Paths\<close>

text \<open>\<open>s.rfind(c)\<close>: the last index of \<open>c\<close> in \<open>s\<close>, or \<open>-1\<close>.\<close>

definition rfind :: "char \<Rightarrow> string \<Rightarrow> int" where
  "rfind c s =
     (if c \<in> set s then int (length s) - 1 - int (length (takeWhile (\<lambda>x. x \<noteq> c) (rev s)))
      else - 1)"

text \<open>\<open>os.path.basename(p)\<close>: what follows the last slash.\<close>

definition basename :: "string \<Rightarrow> string" where
  "basename p = drop (nat (rfind CHR ''/'' p + 1)) p"

text \<open>
  \<open>os.path.splitext(p)\<close>: the path is cut at its last dot when that dot lies in the
  last component and some character of that component before it is not a dot.
\<close>

definition splitext :: "string \<Rightarrow> string \<times> string" where
  "splitext p =
     (let sepIndex = rfind CHR ''/'' p;
          dotIndex = rfind CHR ''.'' p
      in if sepIndex < dotIndex
            \<and> (\<exists>c \<in> set (take (nat (dotIndex - (sepIndex + 1))) (drop (nat (sepIndex + 1)) p)).
                  c \<noteq> CHR ''.'')
         then (take (nat dotIndex) p, drop (nat dotIndex) p)
         else (p, []))"

text \<open>\<open>os.path.join(a, b)\<close> for two components.\<close>

definition path_join :: "string \<Rightarrow> string \<Rightarrow> string" where
  "path_join a b =
     (if prefix ''/'' b then b
      else if a = [] \<or> suffix ''/'' a then a @ b
      else a @ ''/'' @ b)"

subsection \<open>The world: processes and the log\<close>

text \<open>
  The class \<open>MP4BoxWrapper\<close> holds four paths, set once by \<open>__init__\<close>.
\<close>

record config =
  original_video_path :: string
  video_segments :: string
  output_path :: string
  output_directory :: string

text \<open>
  The calls of \<open>logger.info\<close> and \<open>logger.error\<close> in the module, one constructor for
  each message with the values its f-string interpolates. The text that
  \<open>traceback.format_exc()\<close> adds to the two error messages is left out.
  \<^item> \<open>Skipping p\<close>: info, "Skipping file p: duration is less than the specified segment duration."
  \<^item> \<open>SegmentSaved i p out\<close>: info, "Segment i of video p saved to out"
  \<^item> \<open>SplitError p\<close>: error, "Error while splitting video p: ..."
  \<^item> \<open>NoVideoFiles\<close>: info, "No video files found in the directory."
  \<^item> \<open>OnlyOneVideo\<close>: info, "Can't merge just one video"
  \<^item> \<open>VideoFiles fs\<close>: info, "Video files: fs"
  \<^item> \<open>Merged out\<close>: info, "Videos merged successfully.Find result here: out"
  \<^item> \<open>MergeError\<close>: error, "Error while merging videos: ..."
\<close>

datatype log_entry =
    Skipping string
  | SegmentSaved int string string
  | SplitError string
  | NoVideoFiles
  | OnlyOneVideo
  | VideoFiles "string list"
  | Merged string
  | MergeError

text \<open>
  What the module needs from outside: \<open>tool\<close> runs a command line in a world and gives
  the exit status, the text printed on standard output and standard error, and the
  world afterwards; \<open>listdir\<close> is \<open>os.listdir\<close>.
\<close>

record 'w env =
  tool :: "string list \<Rightarrow> 'w \<Rightarrow> (int \<times> string) \<times> 'w"
  listdir :: "string \<Rightarrow> 'w \<Rightarrow> string list"

text \<open>
  The state of a run: the world, the processes started so far (command line and exit
  status, oldest first) and the messages logged so far.
\<close>

record 'w state =
  world :: 'w
  spawned :: "(string list \<times> int) list"
  logged :: "log_entry list"

definition log_msg :: "log_entry \<Rightarrow> 'w state \<Rightarrow> 'w state" where
  "log_msg m s = s\<lparr>logged := logged s @ [m]\<rparr>"

text \<open>Starting a process and waiting for it to end.\<close>

definition run_process ::
  "'w env \<Rightarrow> string list \<Rightarrow> 'w state \<Rightarrow> (int \<times> string) \<times> 'w state" where
  "run_process e command s =
     (case tool e command (world s) of
        ((rc, out), w) \<Rightarrow> ((rc, out), s\<lparr>world := w, spawned := spawned s @ [(command, rc)]\<rparr>))"

subsection \<open>\<open>_get_video_duration\<close>\<close>

text \<open>
  Lines 105 to 122: the first line that contains the word Duration; its second
  field, with every dot turned into a colon, cut at the colons into exactly four
  integers. \<open>duration_line.split()[1]\<close> raises \<open>IndexError\<close> when the line has one
  field only; the unpacking of \<open>map(int, ...)\<close> raises \<open>ValueError\<close> when there are
  not four pieces or \<open>int\<close> rejects one. Without such a line the result is 0.
\<close>

definition duration_line :: "string \<Rightarrow> string option" where
  "duration_line output = find (\<lambda>line. sublist ''Duration'' line) (splitlines output)"

definition parse_duration :: "string \<Rightarrow> py_error + rat" where
  "parse_duration output =
     (case duration_line output of
        None \<Rightarrow> Inr 0
      | Some line \<Rightarrow>
          if line = [] then Inr 0
          else (case split_ws line of
                  _ # field # _ \<Rightarrow>
                    (let duration_str = replace_char CHR ''.'' CHR '':'' (strip field)
                     in case map py_int (split_sep CHR '':'' duration_str) of
                          [Some hours, Some minutes, Some seconds, Some millisecond] \<Rightarrow>
                            Inr (of_int (hours * 3600 + minutes * 60 + seconds)
                                 + of_int millisecond * (1 / 1000))
                        | _ \<Rightarrow> Inl ValueError)
                | _ \<Rightarrow> Inl IndexError))"

text \<open>
  Lines 95 to 103: \<open>subprocess.check_output\<close> runs \<open>MP4Box -info video_path\<close> and
  raises \<open>CalledProcessError\<close> when the exit status is not zero; nothing in the
  function catches it.
\<close>

definition get_video_duration ::
  "'w env \<Rightarrow> string \<Rightarrow> 'w state \<Rightarrow> (py_error + rat) \<times> 'w state" where
  "get_video_duration e video_path s =
     (case run_process e [''MP4Box'', ''-info'', video_path] s of
        ((rc, output), s1) \<Rightarrow>
          if rc \<noteq> 0 then (Inl CalledProcessError, s1)
          else (parse_duration output, s1))"

subsection \<open>\<open>_calculate_segment_count\<close>\<close>

text \<open>
  Lines 82 to 86. The comparison of a float with an int is exact in Python; the
  division raises \<open>ZeroDivisionError\<close> when \<open>duration\<close> is 0; \<open>math.ceil\<close> gives an int.
\<close>

definition calculate_segment_count ::
  "'w env \<Rightarrow> string \<Rightarrow> int \<Rightarrow> 'w state \<Rightarrow> (py_error + int) \<times> 'w state" where
  "calculate_segment_count e video_path duration s =
     (case get_video_duration e video_path s of
        (Inl err, s1) \<Rightarrow> (Inl err, s1)
      | (Inr video_duration, s1) \<Rightarrow>
          if video_duration < of_int duration then (Inr 0, s1)
          else if duration = 0 then (Inl ZeroDivisionError, s1)
          else (Inr \<lceil>video_duration / of_int duration\<rceil>, s1))"

subsection \<open>\<open>split_videos\<close>\<close>

text \<open>
  Lines 148 to 158, the command line of the segment with the given index: the range
  \<open>start:end\<close> in seconds, the source, and the output file named after the source
  with the number \<open>index + 1\<close>.
\<close>

definition segment_output_path :: "config \<Rightarrow> string \<Rightarrow> nat \<Rightarrow> string" where
  "segment_output_path cfg output_base index =
     path_join (output_directory cfg)
       (output_base @ ''_segment_'' @ str_int (int index + 1) @ ''.mp4'')"

definition split_command :: "config \<Rightarrow> int \<Rightarrow> string \<Rightarrow> nat \<Rightarrow> string list" where
  "split_command cfg duration output_base index =
     (let start_time = int index * duration
      in [''MP4Box'',
          ''-splitx'', str_int start_time @ '':'' @ str_int (start_time + duration),
          original_video_path cfg,
          ''-out'', segment_output_path cfg output_base index])"

text \<open>
  Lines 147 to 174, the loop over \<open>range(segment_count)\<close>: \<open>subprocess.run\<close> with
  \<open>check=True\<close> raises \<open>CalledProcessError\<close> on an exit status other than zero, the
  handler logs the error and returns \<open>False\<close> at once.
\<close>

fun split_loop ::
  "'w env \<Rightarrow> config \<Rightarrow> int \<Rightarrow> string \<Rightarrow> nat list \<Rightarrow> 'w state \<Rightarrow> bool \<times> 'w state" where
  "split_loop e cfg duration output_base [] s = (True, s)"
| "split_loop e cfg duration output_base (index # rest) s =
     (case run_process e (split_command cfg duration output_base index) s of
        ((rc, out), s1) \<Rightarrow>
          if rc = 0
          then split_loop e cfg duration output_base rest
                 (log_msg (SegmentSaved (int index + 1) (original_video_path cfg)
                             (segment_output_path cfg output_base index)) s1)
          else (False, log_msg (SplitError (original_video_path cfg)) s1))"

text \<open>
  Lines 132 to 146. An exception of the duration probe or of the segment count
  leaves \<open>split_videos\<close> uncaught. \<open>range(n)\<close> is empty for a negative \<open>n\<close>.
\<close>

definition split_videos ::
  "'w env \<Rightarrow> config \<Rightarrow> int \<Rightarrow> 'w state \<Rightarrow> (py_error + bool) \<times> 'w state" where
  "split_videos e cfg duration s =
     (case calculate_segment_count e (original_video_path cfg) duration s of
        (Inl err, s1) \<Rightarrow> (Inl err, s1)
      | (Inr segment_count, s1) \<Rightarrow>
          if segment_count = 0
          then (Inr False, log_msg (Skipping (original_video_path cfg)) s1)
          else (let output_base = fst (splitext (basename (original_video_path cfg)))
                in case split_loop e cfg duration output_base [0..<nat segment_count] s1 of
                     (ok, s2) \<Rightarrow> (Inr ok, s2)))"

subsection \<open>\<open>merge_videos\<close>\<close>

text \<open>Lines 66 to 71.\<close>

definition get_video_files :: "'w env \<Rightarrow> config \<Rightarrow> 'w state \<Rightarrow> string list" where
  "get_video_files e cfg s =
     map (path_join (video_segments cfg))
       (filter (suffix ''.mp4'') (listdir e (video_segments cfg) (world s)))"

text \<open>
  \<open>video_files.sort(key=sort_function)\<close>: the key of every element is computed first,
  in the order of the list, and an exception of the key function ends the sort; the
  elements are then put in the order of their keys, elements with equal keys keeping
  their order. The keys are of a linearly ordered type.
\<close>

fun keyed :: "('a \<Rightarrow> py_error + 'k) \<Rightarrow> 'a list \<Rightarrow> py_error + ('k \<times> 'a) list" where
  "keyed f [] = Inr []"
| "keyed f (x # xs) =
     (case f x of
        Inl err \<Rightarrow> Inl err
      | Inr k \<Rightarrow> (case keyed f xs of
                   Inl err \<Rightarrow> Inl err
                 | Inr ps \<Rightarrow> Inr ((k, x) # ps)))"

definition list_sort :: "('a \<Rightarrow> py_error + 'k::linorder) \<Rightarrow> 'a list \<Rightarrow> py_error + 'a list" where
  "list_sort f xs =
     (case keyed f xs of
        Inl err \<Rightarrow> Inl err
      | Inr ps \<Rightarrow> Inr (map snd (sort_key fst ps)))"

text \<open>
  Lines 194 to 202: every file equal to the first one of the list is given \<open>-add\<close>,
  every other file \<open>-cat\<close>.
\<close>

definition videos_with_commands :: "string list \<Rightarrow> string list" where
  "videos_with_commands video_files =
     concat (map (\<lambda>video. if video = video_files ! 0 then [''-add'', video]
                           else [''-cat'', video]) video_files)"

text \<open>Lines 182 to 222.\<close>

definition merge_videos ::
  "'w env \<Rightarrow> config \<Rightarrow> (string \<Rightarrow> py_error + 'k::linorder) \<Rightarrow> 'w state
     \<Rightarrow> (py_error + bool) \<times> 'w state" where
  "merge_videos e cfg sort_function s =
     (let video_files = get_video_files e cfg s
      in if video_files = [] then (Inr False, log_msg NoVideoFiles s)
         else
           (let s1 = (if length video_files = 1 then log_msg OnlyOneVideo s else s)
            in case list_sort sort_function video_files of
                 Inl err \<Rightarrow> (Inl err, s1)
               | Inr sorted_files \<Rightarrow>
                   (let s2 = log_msg (VideoFiles sorted_files) s1;
                        command = [''MP4Box'', ''-force-cat'']
                                    @ videos_with_commands sorted_files
                                    @ [output_path cfg]
                    in case run_process e command s2 of
                         ((rc, out), s3) \<Rightarrow>
                           if rc = 0 then (Inr True, log_msg (Merged (output_path cfg)) s3)
                           else (Inr False, log_msg MergeError s3))))"

subsection \<open>The script at the end of the module\<close>

text \<open>
  Lines 226 to 238: the paths the script uses and its sort key,
  \<open>int(name.split("_")[-1].removesuffix(".mp4"))\<close>.
\<close>

definition main_config :: config where
  "main_config =
     \<lparr>original_video_path = ''original.mp4'', video_segments = ''video_segments'',
      output_path = ''merged.mp4'', output_directory = ''video_segments''\<rparr>"

definition numeric_suffix :: "string \<Rightarrow> py_error + int" where
  "numeric_suffix name =
     (case py_int (removesuffix ''.mp4'' (last (split_sep CHR ''_'' name))) of
        None \<Rightarrow> Inl ValueError
      | Some n \<Rightarrow> Inr n)"

subsection \<open>Scripted worlds\<close>

text \<open>
  A world for concrete runs: it counts the processes started so far, the process
  number \<open>k\<close> ends as the entry \<open>k\<close> of a script says (with status 0 and no output
  once the script is over), and the segment directory has the given entries.
\<close>

definition scripted :: "(int \<times> string) list \<Rightarrow> string list \<Rightarrow> nat env" where
  "scripted script entries =
     \<lparr>tool = (\<lambda>command k. (if k < length script then script ! k else (0, []), Suc k)),
      listdir = (\<lambda>directory k. entries)\<rparr>"

definition start :: "nat state" where
  "start = \<lparr>world = 0, spawned = [], logged = []\<rparr>"

subsection \<open>Notions used to state the properties\<close>

text \<open>The number a string of decimal digits stands for.\<close>

definition decimal :: "string \<Rightarrow> nat" where
  "decimal ds = foldl (\<lambda>acc c. 10 * acc + digit_val c) 0 ds"

definition digit_string :: "string \<Rightarrow> bool" where
  "digit_string ds \<longleftrightarrow> ds \<noteq> [] \<and> list_all is_digit ds"

text \<open>
  An \<open>int\<close> can be converted to a \<open>float\<close> exactly when its absolute value is below
  this limit; beyond it the conversion raises \<open>OverflowError\<close>, which the model does
  not have. A statement that no exception is raised is made within the limit only.
\<close>

definition float_limit :: int where
  "float_limit = 2 ^ 1024 - 2 ^ 970"

text \<open>
  The exit statuses of a list of command lines that are run one after the other, each
  in the world the one before it has left.
\<close>

fun statuses :: "'w env \<Rightarrow> string list list \<Rightarrow> 'w \<Rightarrow> int list" where
  "statuses e [] w = []"
| "statuses e (command # rest) w =
     fst (fst (tool e command w)) # statuses e rest (snd (tool e command w))"

text \<open>
  A field of a line that, with its dots turned into colons, is cut by the colons into
  exactly four pieces that \<open>int\<close> accepts.
\<close>

definition four_int_fields :: "string \<Rightarrow> bool" where
  "four_int_fields field =
     (let pieces = split_sep CHR '':'' (replace_char CHR ''.'' CHR '':'' field)
      in length pieces = 4 \<and> list_all (\<lambda>piece. py_int piece \<noteq> None) pieces)"

section \<open>Properties\<close>

subsection \<open>Processes and the log\<close>

lemma run_process_spawned:
  "run_process e command s = ((rc, out), s1) \<Longrightarrow>
     spawned s1 = spawned s @ [(command, rc)] \<and> logged s1 = logged s"
  by (auto simp: run_process_def split: prod.splits)

lemma spawned_log_msg [simp]: "spawned (log_msg m s) = spawned s"
  by (simp add: log_msg_def)

lemma calculate_segment_count_spawned:
  assumes "calculate_segment_count e p d s = (r, s1)"
  shows "\<exists>rc. spawned s1 = spawned s @ [([''MP4Box'', ''-info'', p], rc)]
           \<and> logged s1 = logged s \<and> ((\<exists>n. r = Inr n) \<longrightarrow> rc = 0)"
proof -
  obtain rc out s0 where rp: "run_process e [''MP4Box'', ''-info'', p] s = ((rc, out), s0)"
    by (metis prod.exhaust)
  have s10: "s1 = s0"
    using assms rp
    by (auto simp: calculate_segment_count_def get_video_duration_def
             split: if_splits sum.splits prod.splits)
  have "(\<exists>n. r = Inr n) \<longrightarrow> rc = 0"
    using assms rp
    by (auto simp: calculate_segment_count_def get_video_duration_def
             split: if_splits sum.splits prod.splits)
  then show ?thesis using run_process_spawned [OF rp] s10 by blast
qed

subsection \<open>The duration probe and the end of the external process\<close>

lemma get_video_duration_failure:
  assumes "fst (fst (tool e [''MP4Box'', ''-info'', video_path] (world s))) \<noteq> 0"
  shows "fst (get_video_duration e video_path s) = Inl CalledProcessError"
  using assms by (auto simp: get_video_duration_def run_process_def split: prod.splits)

text \<open>
  Claim C1 says that the duration probe returns zero when no line of the output has
  the duration marker and also when the external process fails, so that a failure of
  the process never leaves the probe as an exception. The function has no handler
  around \<open>subprocess.check_output\<close>: when MP4Box ends with status 1, the probe raises
  \<open>CalledProcessError\<close> and returns nothing.
\<close>

theorem probe_raises_when_tool_fails:
  "fst (get_video_duration (scripted [(1, [])] []) ''original.mp4'' start)
     = Inl CalledProcessError"
  by (rule get_video_duration_failure) (simp add: scripted_def start_def)

subsection \<open>Reading the duration\<close>

lemma split_ws_fields:
  "t \<in> set (split_ws s) \<Longrightarrow> t \<noteq> [] \<and> (\<forall>c \<in> set t. \<not> is_space c)"
proof (induction s rule: split_ws.induct)
  case (1 s)
  show ?case
  proof (cases "dropWhile is_space s")
    case Nil
    with "1.prems" show ?thesis by (simp add: split_ws.simps [of s])
  next
    case (Cons c cs)
    have c: "\<not> is_space c" using Cons hd_dropWhile [of is_space s] by simp
    from "1.prems" Cons
    have "t = takeWhile (\<lambda>x. \<not> is_space x) (c # cs)
            \<or> t \<in> set (split_ws (dropWhile (\<lambda>x. \<not> is_space x) (c # cs)))"
      by (simp add: split_ws.simps [of s])
    then show ?thesis
    proof
      assume t: "t = takeWhile (\<lambda>x. \<not> is_space x) (c # cs)"
      then have "t \<noteq> []" using c by simp
      moreover have "\<forall>x \<in> set t. \<not> is_space x"
        using t by (metis set_takeWhileD)
      ultimately show ?thesis by simp
    next
      assume "t \<in> set (split_ws (dropWhile (\<lambda>x. \<not> is_space x) (c # cs)))"
      then show ?thesis by (rule "1.IH" [OF Cons])
    qed
  qed
qed

lemma strip_no_space: "\<forall>c \<in> set t. \<not> is_space c \<Longrightarrow> strip t = t"
proof -
  assume a: "\<forall>c \<in> set t. \<not> is_space c"
  have d: "\<And>xs. \<forall>c \<in> set xs. \<not> is_space c \<Longrightarrow> dropWhile is_space xs = xs"
    by (case_tac xs) auto
  show ?thesis using a by (simp add: strip_def d)
qed

lemma duration_line_nonempty: "duration_line output = Some line \<Longrightarrow> line \<noteq> []"
  by (auto simp: duration_line_def find_Some_iff)

lemma four_fields_case:
  "(case xs of
      [Some a, Some b, Some c, Some d] \<Rightarrow> f a b c d
    | _ \<Rightarrow> g)
   = (if length xs = 4 \<and> list_all (\<lambda>x. x \<noteq> None) xs
      then f (the (xs ! 0)) (the (xs ! 1)) (the (xs ! 2)) (the (xs ! 3)) else g)"
  by (auto split: list.splits option.splits)

lemma get_video_duration_output:
  assumes "tool e [''MP4Box'', ''-info'', video_path] (world s) = ((0, output), w)"
  shows "fst (get_video_duration e video_path s) = parse_duration output"
  using assms by (simp add: get_video_duration_def run_process_def)

lemma parse_duration_one_field:
  assumes line: "duration_line output = Some line" and short: "length (split_ws line) < 2"
  shows "parse_duration output = Inl IndexError"
proof -
  from short have "(case split_ws line of _ # field # _ \<Rightarrow> f field | _ \<Rightarrow> Inl IndexError)
                     = Inl IndexError" for f :: "string \<Rightarrow> py_error + rat"
    by (auto split: list.splits)
  then show ?thesis
    using line duration_line_nonempty [OF line] by (simp add: parse_duration_def)
qed

lemma parse_duration_fields:
  assumes line: "duration_line output = Some line" and long: "2 \<le> length (split_ws line)"
  shows "parse_duration output =
     (let pieces = map py_int (split_sep CHR '':'' (replace_char CHR ''.'' CHR '':'' (split_ws line ! 1)))
      in if length pieces = 4 \<and> list_all (\<lambda>x. x \<noteq> None) pieces
         then Inr (of_int (the (pieces ! 0) * 3600 + the (pieces ! 1) * 60 + the (pieces ! 2))
                   + of_int (the (pieces ! 3)) * (1 / 1000))
         else Inl ValueError)"
proof -
  from long obtain a field rest where sp: "split_ws line = a # field # rest"
    by (cases "split_ws line"; cases "tl (split_ws line)") auto
  then have "field \<in> set (split_ws line)" by simp
  then have "strip field = field" using split_ws_fields strip_no_space by blast
  then show ?thesis
    using line duration_line_nonempty [OF line] sp
    by (simp add: parse_duration_def four_fields_case Let_def)
qed

lemma int_digits_all:
  "list_all is_digit ds \<Longrightarrow>
     int_digits acc ds = Some (foldl (\<lambda>a c. 10 * a + digit_val c) acc ds)"
  by (induction acc ds rule: int_digits.induct) auto

lemma digit_not_space: "is_digit c \<Longrightarrow> \<not> is_space c"
  by (auto simp: is_digit_def is_space_def)

lemma digit_not_sign: "is_digit c \<Longrightarrow> c \<noteq> CHR ''-'' \<and> c \<noteq> CHR ''+''"
  by (auto simp: is_digit_def)

lemma digit_not_sep: "is_digit c \<Longrightarrow> c \<noteq> CHR ''.'' \<and> c \<noteq> CHR '':''"
  by (auto simp: is_digit_def)

lemma py_int_digit_string:
  assumes "digit_string ds"
  shows "py_int ds = Some (int (decimal ds))"
proof -
  from assms obtain c cs where ds: "ds = c # cs" and c: "is_digit c" and cs: "list_all is_digit cs"
    by (cases ds) (auto simp: digit_string_def)
  have all: "\<forall>x \<in> set ds. \<not> is_int_space x"
  proof
    fix x assume "x \<in> set ds"
    then have "is_digit x" using assms by (simp add: digit_string_def list_all_iff)
    then show "\<not> is_int_space x" by (auto simp: is_digit_def is_int_space_def)
  qed
  have ne: "ds \<noteq> []" using ds by simp
  have "\<not> is_int_space (hd ds)" using all ne by simp
  then have front: "dropWhile is_int_space ds = ds" by (simp add: dropWhile_eq_self_iff)
  have "\<not> is_int_space (hd (rev ds))" using all ne by (simp add: hd_rev)
  then have "dropWhile is_int_space (rev ds) = rev ds" by (simp add: dropWhile_eq_self_iff)
  with front have "rev (dropWhile is_int_space (rev (dropWhile is_int_space ds))) = ds" by simp
  moreover have "int_literal (c # cs) = Some (decimal (c # cs))"
    using c int_digits_all [OF cs, of "digit_val c"] by (simp add: int_literal_def decimal_def)
  ultimately show ?thesis
    using ds digit_not_sign [OF c] by (simp add: py_int_def)
qed


lemma split_sep_no_sep: "sep \<notin> set s \<Longrightarrow> split_sep sep s = [s]"
  by (induction s) auto

lemma split_sep_append:
  "sep \<notin> set a \<Longrightarrow> split_sep sep (a @ sep # b) = a # split_sep sep b"
  by (induction a) auto

lemma replace_char_absent: "a \<notin> set s \<Longrightarrow> replace_char a b s = s"
  by (induction s) (auto simp: replace_char_def)

lemma replace_char_append:
  "replace_char a b (s @ t) = replace_char a b s @ replace_char a b t"
  by (simp add: replace_char_def)

lemma digit_string_no_sep:
  "digit_string ds \<Longrightarrow> CHR ''.'' \<notin> set ds \<and> CHR '':'' \<notin> set ds"
  using digit_not_sep by (auto simp: digit_string_def list_all_iff)

text \<open>
  Without a line that has the duration marker the probe returns 0, provided the
  process ended with status zero.
\<close>

lemma probe_without_marker:
  assumes "tool e [''MP4Box'', ''-info'', video_path] (world s) = ((0, output), w)"
    and "duration_line output = None"
  shows "fst (get_video_duration e video_path s) = Inr 0"
  using assms get_video_duration_output [OF assms(1)] by (simp add: parse_duration_def)

text \<open>
  Claim C3: when the second whitespace-separated field of the first line with the
  duration marker has the form \<open>HH.MM.SS.mmm\<close>, four strings of decimal digits
  separated by dots (or by the colons the dots are turned into), the probe cuts it
  into its four numbers and returns \<open>hours * 3600 + minutes * 60 + seconds +
  milliseconds / 1000\<close>; the field \<open>01.02.03.004\<close> gives 3723.004 seconds.
\<close>

theorem duration_of_token:
  assumes out: "tool e [''MP4Box'', ''-info'', video_path] (world s) = ((0, output), w)"
    and line: "duration_line output = Some line"
    and long: "2 \<le> length (split_ws line)"
    and field: "split_ws line ! 1 = hh @ d1 # mm @ d2 # ss @ d3 # mmm"
    and seps: "d1 \<in> {CHR ''.'', CHR '':''}" "d2 \<in> {CHR ''.'', CHR '':''}"
      "d3 \<in> {CHR ''.'', CHR '':''}"
    and digits: "digit_string hh" "digit_string mm" "digit_string ss" "digit_string mmm"
  shows "fst (get_video_duration e video_path s)
           = Inr (of_nat (decimal hh) * 3600 + of_nat (decimal mm) * 60 + of_nat (decimal ss)
                  + of_nat (decimal mmm) / 1000)"
proof -
  note ns = digits [THEN digit_string_no_sep]
  have r: "replace_char CHR ''.'' CHR '':'' ds = ds" if "digit_string ds" for ds
    using digit_string_no_sep [OF that] by (simp add: replace_char_absent)
  have d: "replace_char CHR ''.'' CHR '':'' (x # t) = CHR '':'' # replace_char CHR ''.'' CHR '':'' t"
    if "x \<in> {CHR ''.'', CHR '':''}" for x t
    using that by (auto simp: replace_char_def)
  have "replace_char CHR ''.'' CHR '':'' (split_ws line ! 1)
          = hh @ CHR '':'' # mm @ CHR '':'' # ss @ CHR '':'' # mmm"
    unfolding field by (simp add: replace_char_append d [OF seps(1)] d [OF seps(2)]
        d [OF seps(3)] r [OF digits(1)] r [OF digits(2)] r [OF digits(3)] r [OF digits(4)])
  then have "split_sep CHR '':'' (replace_char CHR ''.'' CHR '':'' (split_ws line ! 1))
          = [hh, mm, ss, mmm]"
    using ns by (simp add: split_sep_append split_sep_no_sep)
  then have pieces: "map py_int (split_sep CHR '':'' (replace_char CHR ''.'' CHR '':''
                       (split_ws line ! 1)))
          = [Some (int (decimal hh)), Some (int (decimal mm)), Some (int (decimal ss)),
             Some (int (decimal mmm))]"
    using digits by (simp add: py_int_digit_string)
  have "parse_duration output
          = Inr (of_nat (decimal hh) * 3600 + of_nat (decimal mm) * 60 + of_nat (decimal ss)
                  + of_nat (decimal mmm) / 1000)"
    unfolding parse_duration_fields [OF line long] pieces Let_def by simp
  then show ?thesis using get_video_duration_output [OF out] by simp
qed

theorem duration_of_token_witness:
  "fst (get_video_duration (scripted [(0, ''Duration 01.02.03.004'')] []) ''original.mp4'' start)
     = Inr (3723004 / 1000)"
proof -
  have out: "tool (scripted [(0, ''Duration 01.02.03.004'')] [])
               [''MP4Box'', ''-info'', ''original.mp4''] (world start)
             = ((0, ''Duration 01.02.03.004''), 1)"
    by (simp add: scripted_def start_def)
  have line: "duration_line ''Duration 01.02.03.004'' = Some ''Duration 01.02.03.004''"
    by code_simp
  have long: "2 \<le> length (split_ws ''Duration 01.02.03.004'')" by code_simp
  have field: "split_ws ''Duration 01.02.03.004'' ! 1
                 = ''01'' @ CHR ''.'' # ''02'' @ CHR ''.'' # ''03'' @ CHR ''.'' # ''004''"
    by code_simp
  have sep: "CHR ''.'' \<in> {CHR ''.'', CHR '':''}" by simp
  have digits: "digit_string ''01''" "digit_string ''02''" "digit_string ''03''"
    "digit_string ''004''"
    by code_simp+
  have vals: "decimal ''01'' = 1" "decimal ''02'' = 2" "decimal ''03'' = 3" "decimal ''004'' = 4"
    by code_simp+
  show ?thesis
    using duration_of_token [OF out line long field sep sep sep digits]
    by (simp add: vals)
qed

text \<open>
  Claim C10: when the first line with the duration marker has fewer than two
  whitespace-separated fields the probe raises \<open>IndexError\<close>, and when its second
  field is not cut into exactly four pieces that \<open>int\<close> accepts the probe raises
  \<open>ValueError\<close>; in neither case does it return zero.
\<close>

theorem malformed_duration_line_raises:
  assumes out: "tool e [''MP4Box'', ''-info'', video_path] (world s) = ((0, output), w)"
    and line: "duration_line output = Some line"
  shows "(length (split_ws line) < 2
            \<longrightarrow> fst (get_video_duration e video_path s) = Inl IndexError)
       \<and> (2 \<le> length (split_ws line) \<and> \<not> four_int_fields (split_ws line ! 1)
            \<longrightarrow> fst (get_video_duration e video_path s) = Inl ValueError)"
proof (intro conjI impI)
  assume "length (split_ws line) < 2"
  then show "fst (get_video_duration e video_path s) = Inl IndexError"
    using parse_duration_one_field [OF line] get_video_duration_output [OF out] by simp
next
  assume a: "2 \<le> length (split_ws line) \<and> \<not> four_int_fields (split_ws line ! 1)"
  then have long: "2 \<le> length (split_ws line)"
    and bad: "\<not> four_int_fields (split_ws line ! 1)" by simp_all
  let ?pieces = "split_sep CHR '':'' (replace_char CHR ''.'' CHR '':'' (split_ws line ! 1))"
  from bad have "\<not> (length (map py_int ?pieces) = 4
                    \<and> list_all (\<lambda>x. x \<noteq> None) (map py_int ?pieces))"
    unfolding four_int_fields_def Let_def by (simp add: list_all_iff)
  then have "parse_duration output = Inl ValueError"
    unfolding parse_duration_fields [OF line long] Let_def by (rule if_not_P)
  then show "fst (get_video_duration e video_path s) = Inl ValueError"
    using get_video_duration_output [OF out] by simp
qed

theorem malformed_duration_line_raises_witness:
  "duration_line ''Duration'' = Some ''Duration''
   \<and> length (split_ws ''Duration'') < 2
   \<and> fst (get_video_duration (scripted [(0, ''Duration'')] []) ''original.mp4'' start)
       = Inl IndexError
   \<and> duration_line ''Duration 1.2.3'' = Some ''Duration 1.2.3''
   \<and> 2 \<le> length (split_ws ''Duration 1.2.3'')
   \<and> \<not> four_int_fields (split_ws ''Duration 1.2.3'' ! 1)
   \<and> fst (get_video_duration (scripted [(0, ''Duration 1.2.3'')] []) ''original.mp4'' start)
       = Inl ValueError"
proof -
  have out_a: "tool (scripted [(0, ''Duration'')] []) [''MP4Box'', ''-info'', ''original.mp4'']
                 (world start) = ((0, ''Duration''), 1)"
    by (simp add: scripted_def start_def)
  have line_a: "duration_line ''Duration'' = Some ''Duration''" by code_simp
  have short_a: "length (split_ws ''Duration'') < 2" by code_simp
  have a: "fst (get_video_duration (scripted [(0, ''Duration'')] []) ''original.mp4'' start)
       = Inl IndexError"
    using malformed_duration_line_raises [OF out_a line_a] short_a by blast
  have out_b: "tool (scripted [(0, ''Duration 1.2.3'')] []) [''MP4Box'', ''-info'', ''original.mp4'']
                 (world start) = ((0, ''Duration 1.2.3''), 1)"
    by (simp add: scripted_def start_def)
  have line_b: "duration_line ''Duration 1.2.3'' = Some ''Duration 1.2.3''" by code_simp
  have long_b: "2 \<le> length (split_ws ''Duration 1.2.3'')" by code_simp
  have bad_b: "\<not> four_int_fields (split_ws ''Duration 1.2.3'' ! 1)" by code_simp
  have b: "fst (get_video_duration (scripted [(0, ''Duration 1.2.3'')] []) ''original.mp4'' start)
       = Inl ValueError"
    using malformed_duration_line_raises [OF out_b line_b] long_b bad_b by blast
  from line_a short_a a line_b long_b bad_b b show ?thesis by blast
qed

subsection \<open>The segment count\<close>

text \<open>
  Claim C2: for a requested duration above zero the segment count is 0 exactly when
  the duration of the video is below the requested duration, and is otherwise the
  quotient of the two rounded up. This holds for every duration of the video, the
  negative ones included.
\<close>

theorem segment_count_positive_duration:
  assumes probe: "get_video_duration e video_path s = (Inr video_duration, s1)"
    and pos: "0 < duration"
  shows "\<exists>n. calculate_segment_count e video_path duration s = (Inr n, s1)
           \<and> (n = 0 \<longleftrightarrow> video_duration < of_int duration)
           \<and> (\<not> video_duration < of_int duration \<longrightarrow> n = \<lceil>video_duration / of_int duration\<rceil>)"
proof (cases "video_duration < of_int duration")
  case True
  then show ?thesis using probe by (simp add: calculate_segment_count_def)
next
  case False
  have d: "(0::rat) < of_int duration" using pos by simp
  from False have "1 \<le> video_duration / of_int duration"
    using d by (simp add: le_divide_eq)
  then have "0 < \<lceil>video_duration / of_int duration\<rceil>" by linarith
  then have nz: "\<lceil>video_duration / of_int duration\<rceil> \<noteq> 0" by linarith
  show ?thesis using probe False pos nz by (simp add: calculate_segment_count_def)
qed

theorem segment_count_positive_duration_witness:
  "get_video_duration (scripted [(0, ''Duration 00.01.30.000'')] []) ''original.mp4'' start
     = (Inr 90, \<lparr>world = 1, spawned = [([''MP4Box'', ''-info'', ''original.mp4''], 0)], logged = []\<rparr>)
   \<and> calculate_segment_count (scripted [(0, ''Duration 00.01.30.000'')] []) ''original.mp4'' 60 start
     = (Inr 2, \<lparr>world = 1, spawned = [([''MP4Box'', ''-info'', ''original.mp4''], 0)], logged = []\<rparr>)"
proof -
  have probe: "get_video_duration (scripted [(0, ''Duration 00.01.30.000'')] []) ''original.mp4'' start
     = (Inr 90, \<lparr>world = 1, spawned = [([''MP4Box'', ''-info'', ''original.mp4''], 0)], logged = []\<rparr>)"
    by code_simp
  have "\<lceil>(90::rat) / of_int 60\<rceil> = 2" by (simp add: ceiling_eq_iff)
  then show ?thesis
    using probe segment_count_positive_duration [OF probe, of 60] by auto
qed

text \<open>
  Claim C8 says that a requested duration of zero or below is rejected with an
  input-validation error. The function has no such check: with a video of 90 seconds
  a requested duration of -60 is accepted and gives the count -1, and a requested
  duration of 0 runs into the division and raises \<open>ZeroDivisionError\<close>.
\<close>

theorem unguarded_duration_counterexample:
  "fst (calculate_segment_count (scripted [(0, ''Duration 00.01.30.000'')] []) ''original.mp4'' (- 60) start) = Inr (- 1)
   \<and> fst (calculate_segment_count (scripted [(0, ''Duration 00.01.30.000'')] []) ''original.mp4'' 0 start) = Inl ZeroDivisionError"
  by code_simp

text \<open>
  Claim C8 as amended: the segment count calculation has no guard on the requested
  duration. For a video duration of zero or more, a requested duration of 0 raises
  \<open>ZeroDivisionError\<close>, and a negative requested duration that a float can hold,
  one above \<open>- float_limit\<close>, is accepted without an error and gives the quotient
  rounded up, a count of zero or below. The statement stops there: from that limit
  downwards Python cannot convert the requested duration to a float and raises
  \<open>OverflowError\<close> when the video duration is a float, a branch the model does not
  have.
\<close>

theorem segment_count_nonpositive_duration:
  assumes probe: "get_video_duration e video_path s = (Inr video_duration, s1)"
    and nonneg: "0 \<le> video_duration"
    and nonpos: "duration \<le> 0"
    and range: "- float_limit < duration"
  shows "calculate_segment_count e video_path duration s
           = (if duration = 0 then Inl ZeroDivisionError
              else Inr \<lceil>video_duration / of_int duration\<rceil>, s1)
         \<and> \<lceil>video_duration / of_int duration\<rceil> \<le> 0"
proof -
  have d: "(of_int duration :: rat) \<le> 0" using nonpos by simp
  then have nl: "\<not> video_duration < of_int duration" using nonneg by linarith
  have "video_duration / of_int duration \<le> 0"
    using nonneg d by (simp add: divide_nonneg_nonpos)
  then have "\<lceil>video_duration / of_int duration\<rceil> \<le> 0" by simp
  then show ?thesis using probe nl by (simp add: calculate_segment_count_def)
qed

theorem segment_count_nonpositive_duration_witness:
  "get_video_duration (scripted [(0, ''Duration 00.01.30.000'')] []) ''original.mp4'' start
     = (Inr 90, \<lparr>world = 1, spawned = [([''MP4Box'', ''-info'', ''original.mp4''], 0)], logged = []\<rparr>)
   \<and> (0::rat) \<le> 90 \<and> (- 60 :: int) \<le> 0 \<and> - float_limit < - 60
   \<and> calculate_segment_count (scripted [(0, ''Duration 00.01.30.000'')] []) ''original.mp4'' (- 60) start
     = (Inr (- 1), \<lparr>world = 1, spawned = [([''MP4Box'', ''-info'', ''original.mp4''], 0)], logged = []\<rparr>)
   \<and> calculate_segment_count (scripted [(0, ''Duration 00.01.30.000'')] []) ''original.mp4'' 0 start
     = (Inl ZeroDivisionError, \<lparr>world = 1, spawned = [([''MP4Box'', ''-info'', ''original.mp4''], 0)], logged = []\<rparr>)"
proof -
  have probe: "get_video_duration (scripted [(0, ''Duration 00.01.30.000'')] []) ''original.mp4'' start
     = (Inr 90, \<lparr>world = 1, spawned = [([''MP4Box'', ''-info'', ''original.mp4''], 0)], logged = []\<rparr>)"
    by code_simp
  have c: "\<lceil>(90::rat) / of_int (- 60)\<rceil> = - 1" by (simp add: ceiling_eq_iff)
  have r60: "- float_limit < - 60" and r0: "- float_limit < 0"
    by (simp_all add: float_limit_def)
  have nonneg: "(0::rat) \<le> 90" by simp
  have neg: "calculate_segment_count (scripted [(0, ''Duration 00.01.30.000'')] [])
               ''original.mp4'' (- 60) start
     = (Inr (- 1), \<lparr>world = 1, spawned = [([''MP4Box'', ''-info'', ''original.mp4''], 0)], logged = []\<rparr>)"
    using c segment_count_nonpositive_duration [OF probe nonneg _ r60] by simp
  have zero: "calculate_segment_count (scripted [(0, ''Duration 00.01.30.000'')] [])
               ''original.mp4'' 0 start
     = (Inl ZeroDivisionError, \<lparr>world = 1, spawned = [([''MP4Box'', ''-info'', ''original.mp4''], 0)], logged = []\<rparr>)"
    using segment_count_nonpositive_duration [OF probe nonneg _ r0] by simp
  from probe r60 neg zero show ?thesis by simp
qed

subsection \<open>The split loop\<close>

lemma split_loop_spawned:
  "split_loop e cfg d base idxs s = (ok, s') \<Longrightarrow>
     \<exists>rcs. length rcs \<le> length idxs
       \<and> spawned s' = spawned s @ zip (map (split_command cfg d base) idxs) rcs
       \<and> (\<forall>k. Suc k < length rcs \<longrightarrow> rcs ! k = 0)
       \<and> (ok \<longrightarrow> length rcs = length idxs \<and> (\<forall>rc \<in> set rcs. rc = 0))
       \<and> (\<not> ok \<longrightarrow> rcs \<noteq> [] \<and> last rcs \<noteq> 0)"
proof (induction idxs arbitrary: s)
  case Nil
  then show ?case by simp
next
  case (Cons index rest)
  obtain rc out s1 where
    rp: "run_process e (split_command cfg d base index) s = ((rc, out), s1)"
    by (metis prod.exhaust)
  have sp: "spawned s1 = spawned s @ [(split_command cfg d base index, rc)]"
    using run_process_spawned [OF rp] by simp
  show ?case
  proof (cases "rc = 0")
    case True
    let ?s2 = "log_msg (SegmentSaved (int index + 1) (original_video_path cfg)
                 (segment_output_path cfg base index)) s1"
    from Cons.prems rp True
    have "split_loop e cfg d base rest ?s2 = (ok, s')" by simp
    from Cons.IH [OF this] obtain rcs where
      l: "length rcs \<le> length rest"
      and t: "spawned s' = spawned ?s2 @ zip (map (split_command cfg d base) rest) rcs"
      and z: "\<forall>k. Suc k < length rcs \<longrightarrow> rcs ! k = 0"
      and y: "ok \<longrightarrow> length rcs = length rest \<and> (\<forall>rc \<in> set rcs. rc = 0)"
      and n: "\<not> ok \<longrightarrow> rcs \<noteq> [] \<and> last rcs \<noteq> 0"
      by blast
    have z': "\<forall>k. Suc k < length (0 # rcs) \<longrightarrow> (0 # rcs) ! k = 0"
    proof (intro allI impI)
      fix k assume "Suc k < length (0 # rcs)"
      then show "(0 # rcs) ! k = 0" using z by (cases k) auto
    qed
    have "length (0 # rcs) \<le> length (index # rest)" using l by simp
    moreover have "spawned s' =
        spawned s @ zip (map (split_command cfg d base) (index # rest)) (0 # rcs)"
      using t sp True by simp
    moreover have "ok \<longrightarrow> length (0 # rcs) = length (index # rest)
                     \<and> (\<forall>rc \<in> set (0 # rcs). rc = 0)"
      using y by simp
    moreover have "\<not> ok \<longrightarrow> 0 # rcs \<noteq> [] \<and> last (0 # rcs) \<noteq> 0"
      using n by simp
    ultimately show ?thesis using z' by blast
  next
    case False
    from Cons.prems rp False
    have r: "ok = False" "s' = log_msg (SplitError (original_video_path cfg)) s1" by simp_all
    have "length [rc] \<le> length (index # rest)" by simp
    moreover have "spawned s' =
        spawned s @ zip (map (split_command cfg d base) (index # rest)) [rc]"
      using r sp by simp
    moreover have "\<forall>k. Suc k < length [rc] \<longrightarrow> [rc] ! k = 0" by simp
    moreover have "ok \<longrightarrow> length [rc] = length (index # rest) \<and> (\<forall>x \<in> set [rc]. x = 0)"
      using r by simp
    moreover have "\<not> ok \<longrightarrow> [rc] \<noteq> [] \<and> last [rc] \<noteq> 0" using False by simp
    ultimately show ?thesis by blast
  qed
qed

lemma zip_take_right: "zip xs ys = zip (take (length ys) xs) ys"
  by (induction xs ys rule: list_induct2') auto

lemma zip_upt_shorter:
  "length rcs \<le> n \<Longrightarrow> zip (map f [0..<n]) rcs = zip (map f [0..<length rcs]) rcs"
proof -
  assume l: "length rcs \<le> n"
  have "zip (map f [0..<n]) rcs = zip (take (length rcs) (map f [0..<n])) rcs"
    by (rule zip_take_right)
  also have "take (length rcs) (map f [0..<n]) = map f [0..<length rcs]"
    using l by (simp add: take_map)
  finally show ?thesis .
qed

lemma split_videos_run:
  assumes count: "calculate_segment_count e (original_video_path cfg) d s = (Inr n, s1)"
    and nz: "n \<noteq> 0"
    and run: "split_videos e cfg d s = (r, s')"
  shows "\<exists>ok. r = Inr ok
          \<and> split_loop e cfg d (fst (splitext (basename (original_video_path cfg))))
               [0..<nat n] s1 = (ok, s')"
  using assms by (auto simp: split_videos_def split: prod.splits)

lemma world_log_msg [simp]: "world (log_msg m s) = world s"
  by (simp add: log_msg_def)

lemma run_process_tool:
  "run_process e command s = ((rc, out), s1) \<Longrightarrow>
     rc = fst (fst (tool e command (world s))) \<and> world s1 = snd (tool e command (world s))"
  by (auto simp: run_process_def split: prod.splits)

lemma length_statuses [simp]: "length (statuses e commands w) = length commands"
  by (induction commands arbitrary: w) auto

lemma split_loop_statuses:
  "split_loop e cfg d base idxs s = (ok, s') \<Longrightarrow>
     spawned s' = spawned s
       @ take (Suc (length (takeWhile (\<lambda>rc. rc = 0)
                      (statuses e (map (split_command cfg d base) idxs) (world s)))))
           (zip (map (split_command cfg d base) idxs)
                (statuses e (map (split_command cfg d base) idxs) (world s)))
     \<and> ok = list_all (\<lambda>rc. rc = 0)
               (statuses e (map (split_command cfg d base) idxs) (world s))"
proof (induction idxs arbitrary: s)
  case Nil
  then show ?case by simp
next
  case (Cons index rest)
  let ?c = "split_command cfg d base index"
  obtain rc out s1 where rp: "run_process e ?c s = ((rc, out), s1)"
    by (metis prod.exhaust)
  have sp: "spawned s1 = spawned s @ [(?c, rc)]"
    using run_process_spawned [OF rp] by simp
  have rc: "fst (fst (tool e ?c (world s))) = rc"
    and w: "snd (tool e ?c (world s)) = world s1"
    using run_process_tool [OF rp] by simp_all
  show ?case
  proof (cases "rc = 0")
    case True
    let ?s2 = "log_msg (SegmentSaved (int index + 1) (original_video_path cfg)
                 (segment_output_path cfg base index)) s1"
    from Cons.prems rp True
    have "split_loop e cfg d base rest ?s2 = (ok, s')" by simp
    from Cons.IH [OF this] show ?thesis
      using True sp rc w by simp
  next
    case False
    from Cons.prems rp False
    have "ok = False" "s' = log_msg (SplitError (original_video_path cfg)) s1" by simp_all
    then show ?thesis using False sp rc by simp
  qed
qed

text \<open>
  Claim C4: Split starts the external program once per segment, one after the other
  in the order of the indices, each in the world the one before it has left; when the
  program ends with a status other than zero on a segment, the segments before it
  were attempted, the segments after it are not, nothing else is started, and the
  result is \<open>False\<close>. In the theorem \<open>commands\<close> are the split commands of the
  segments 0 to \<open>n - 1\<close> and \<open>sts\<close> their exit statuses when run one after the other
  from the world the probe has left. If all of them are zero, all \<open>n\<close> commands are
  started, in this order, and the result is \<open>True\<close>. If the segment \<open>k\<close> is the first
  with a status other than zero, exactly the commands of the segments 0 to \<open>k\<close> are
  started, in this order, and the result is \<open>False\<close>.
\<close>

theorem split_sequential_abort:
  assumes count: "calculate_segment_count e (original_video_path cfg) d s = (Inr n, s1)"
    and nz: "n \<noteq> 0"
    and run: "split_videos e cfg d s = (r, s')"
  shows "let commands = map (split_command cfg d
                               (fst (splitext (basename (original_video_path cfg)))))
                          [0..<nat n];
             sts = statuses e commands (world s1)
         in ((\<forall>k < nat n. sts ! k = 0)
               \<longrightarrow> spawned s' = spawned s1 @ zip commands sts \<and> r = Inr True)
          \<and> (\<forall>k < nat n. sts ! k \<noteq> 0 \<and> (\<forall>j < k. sts ! j = 0)
               \<longrightarrow> spawned s' = spawned s1 @ take (Suc k) (zip commands sts)
                   \<and> r = Inr False)"
proof -
  let ?base = "fst (splitext (basename (original_video_path cfg)))"
  let ?commands = "map (split_command cfg d ?base) [0..<nat n]"
  let ?sts = "statuses e ?commands (world s1)"
  have len: "length ?sts = nat n" by simp
  from split_videos_run [OF count nz run] obtain ok where
    r: "r = Inr ok" and loop: "split_loop e cfg d ?base [0..<nat n] s1 = (ok, s')"
    by blast
  from split_loop_statuses [OF loop]
  have sp: "spawned s' = spawned s1
              @ take (Suc (length (takeWhile (\<lambda>rc. rc = 0) ?sts))) (zip ?commands ?sts)"
    and ok: "ok = list_all (\<lambda>rc. rc = 0) ?sts"
    by simp_all
  have a: "spawned s' = spawned s1 @ zip ?commands ?sts \<and> r = Inr True"
    if all: "\<forall>k < nat n. ?sts ! k = 0"
  proof -
    have z: "\<forall>rc \<in> set ?sts. rc = 0"
      using all len by (metis in_set_conv_nth)
    then have tw: "takeWhile (\<lambda>rc. rc = 0) ?sts = ?sts" by (simp add: takeWhile_eq_all_conv)
    have "spawned s' = spawned s1 @ zip ?commands ?sts" unfolding sp tw by simp
    moreover have "ok" using ok z by (simp add: list_all_iff)
    ultimately show ?thesis using r by simp
  qed
  have b: "spawned s' = spawned s1 @ take (Suc k) (zip ?commands ?sts) \<and> r = Inr False"
    if k: "k < nat n" and f: "?sts ! k \<noteq> 0" and before: "\<forall>j < k. ?sts ! j = 0" for k
  proof -
    have "takeWhile (\<lambda>rc. rc = 0) ?sts = take k ?sts"
    proof (rule takeWhile_eq_take_P_nth)
      show "?sts ! i = 0" if "i < k" for i using before that by simp
      show "?sts ! k \<noteq> 0" by (rule f)
    qed
    then have tw: "length (takeWhile (\<lambda>rc. rc = 0) ?sts) = k" using k len by simp
    have "spawned s' = spawned s1 @ take (Suc k) (zip ?commands ?sts)" unfolding sp tw by simp
    moreover have "?sts ! k \<in> set ?sts" using k len by (metis nth_mem)
    then have "\<not> ok" using ok f by (auto simp: list_all_iff)
    ultimately show ?thesis using r by simp
  qed
  show ?thesis unfolding Let_def using a b by blast
qed

theorem split_sequential_abort_witness:
  "(calculate_segment_count (scripted [(0, ''Duration 00.03.00.000''), (0, []), (1, [])] [])
      (original_video_path main_config) 60 start
      = (Inr 3, \<lparr>world = 1, spawned = [([''MP4Box'', ''-info'', ''original.mp4''], 0)],
                 logged = []\<rparr>)
    \<and> statuses (scripted [(0, ''Duration 00.03.00.000''), (0, []), (1, [])] [])
         (map (split_command main_config 60 ''original'') [0..<3]) 1 = [0, 1, 0]
    \<and> fst (split_videos (scripted [(0, ''Duration 00.03.00.000''), (0, []), (1, [])] [])
             main_config 60 start) = Inr False
    \<and> spawned (snd (split_videos (scripted [(0, ''Duration 00.03.00.000''), (0, []), (1, [])] [])
                      main_config 60 start))
        = [([''MP4Box'', ''-info'', ''original.mp4''], 0),
           ([''MP4Box'', ''-splitx'', ''0:60'', ''original.mp4'', ''-out'',
             ''video_segments/original_segment_1.mp4''], 0),
           ([''MP4Box'', ''-splitx'', ''60:120'', ''original.mp4'', ''-out'',
             ''video_segments/original_segment_2.mp4''], 1)])
   \<and> (calculate_segment_count (scripted [(0, ''Duration 00.01.30.000'')] [])
        (original_video_path main_config) 60 start
      = (Inr 2, \<lparr>world = 1, spawned = [([''MP4Box'', ''-info'', ''original.mp4''], 0)],
                 logged = []\<rparr>)
    \<and> statuses (scripted [(0, ''Duration 00.01.30.000'')] [])
         (map (split_command main_config 60 ''original'') [0..<2]) 1 = [0, 0]
    \<and> fst (split_videos (scripted [(0, ''Duration 00.01.30.000'')] []) main_config 60 start)
        = Inr True
    \<and> spawned (snd (split_videos (scripted [(0, ''Duration 00.01.30.000'')] [])
                      main_config 60 start))
        = [([''MP4Box'', ''-info'', ''original.mp4''], 0),
           ([''MP4Box'', ''-splitx'', ''0:60'', ''original.mp4'', ''-out'',
             ''video_segments/original_segment_1.mp4''], 0),
           ([''MP4Box'', ''-splitx'', ''60:120'', ''original.mp4'', ''-out'',
             ''video_segments/original_segment_2.mp4''], 0)])"
proof -
  let ?a = "scripted [(0, ''Duration 00.03.00.000''), (0, []), (1, [])] []"
  let ?b = "scripted [(0, ''Duration 00.01.30.000'')] []"
  let ?s1 = "\<lparr>world = 1::nat, spawned = [([''MP4Box'', ''-info'', ''original.mp4''], 0::int)],
              logged = []\<rparr>"
  let ?cmds3 = "map (split_command main_config 60 ''original'') [0..<nat 3]"
  let ?cmds2 = "map (split_command main_config 60 ''original'') [0..<nat 2]"
  have base: "fst (splitext (basename (original_video_path main_config))) = ''original''"
    by code_simp
  have count_a: "calculate_segment_count ?a (original_video_path main_config) 60 start
                   = (Inr 3, ?s1)"
    by code_simp
  have run_a: "split_videos ?a main_config 60 start
      = (fst (split_videos ?a main_config 60 start), snd (split_videos ?a main_config 60 start))"
    by simp
  have cmds_a: "?cmds3
      = [[''MP4Box'', ''-splitx'', ''0:60'', ''original.mp4'', ''-out'',
          ''video_segments/original_segment_1.mp4''],
         [''MP4Box'', ''-splitx'', ''60:120'', ''original.mp4'', ''-out'',
          ''video_segments/original_segment_2.mp4''],
         [''MP4Box'', ''-splitx'', ''120:180'', ''original.mp4'', ''-out'',
          ''video_segments/original_segment_3.mp4'']]"
    by code_simp
  have sts_a: "statuses ?a ?cmds3 (world ?s1) = [0, 1, 0]"
    by code_simp
  have nz_a: "(3::int) \<noteq> 0" by simp
  have fails: "\<forall>k < nat 3. statuses ?a ?cmds3 (world ?s1) ! k \<noteq> 0
                   \<and> (\<forall>j < k. statuses ?a ?cmds3 (world ?s1) ! j = 0)
                 \<longrightarrow> spawned (snd (split_videos ?a main_config 60 start))
                       = spawned ?s1 @ take (Suc k) (zip ?cmds3 (statuses ?a ?cmds3 (world ?s1)))
                     \<and> fst (split_videos ?a main_config 60 start) = Inr False"
    using split_sequential_abort [OF count_a nz_a run_a] unfolding Let_def base
    by (rule conjunct2)
  have k1: "(1::nat) < nat 3" by simp
  have second: "statuses ?a ?cmds3 (world ?s1) ! 1 \<noteq> 0
                  \<and> (\<forall>j < 1. statuses ?a ?cmds3 (world ?s1) ! j = 0)"
    unfolding sts_a by simp
  have a: "fst (split_videos ?a main_config 60 start) = Inr False
    \<and> spawned (snd (split_videos ?a main_config 60 start))
        = [([''MP4Box'', ''-info'', ''original.mp4''], 0),
           ([''MP4Box'', ''-splitx'', ''0:60'', ''original.mp4'', ''-out'',
             ''video_segments/original_segment_1.mp4''], 0),
           ([''MP4Box'', ''-splitx'', ''60:120'', ''original.mp4'', ''-out'',
             ''video_segments/original_segment_2.mp4''], 1)]"
    using fails [rule_format, OF k1 second, unfolded sts_a] unfolding cmds_a by simp
  have count_b: "calculate_segment_count ?b (original_video_path main_config) 60 start
                   = (Inr 2, ?s1)"
    by code_simp
  have run_b: "split_videos ?b main_config 60 start
      = (fst (split_videos ?b main_config 60 start), snd (split_videos ?b main_config 60 start))"
    by simp
  have cmds_b: "?cmds2
      = [[''MP4Box'', ''-splitx'', ''0:60'', ''original.mp4'', ''-out'',
          ''video_segments/original_segment_1.mp4''],
         [''MP4Box'', ''-splitx'', ''60:120'', ''original.mp4'', ''-out'',
          ''video_segments/original_segment_2.mp4'']]"
    by code_simp
  have sts_b: "statuses ?b ?cmds2 (world ?s1) = [0, 0]"
    by code_simp
  have nz_b: "(2::int) \<noteq> 0" by simp
  have succeeds: "(\<forall>k < nat 2. statuses ?b ?cmds2 (world ?s1) ! k = 0)
                 \<longrightarrow> spawned (snd (split_videos ?b main_config 60 start))
                       = spawned ?s1 @ zip ?cmds2 (statuses ?b ?cmds2 (world ?s1))
                     \<and> fst (split_videos ?b main_config 60 start) = Inr True"
    using split_sequential_abort [OF count_b nz_b run_b] unfolding Let_def base
    by (rule conjunct1)
  have all: "\<forall>k < nat 2. statuses ?b ?cmds2 (world ?s1) ! k = 0"
    unfolding sts_b by (auto simp: less_Suc_eq numeral_2_eq_2)
  have b: "fst (split_videos ?b main_config 60 start) = Inr True
    \<and> spawned (snd (split_videos ?b main_config 60 start))
        = [([''MP4Box'', ''-info'', ''original.mp4''], 0),
           ([''MP4Box'', ''-splitx'', ''0:60'', ''original.mp4'', ''-out'',
             ''video_segments/original_segment_1.mp4''], 0),
           ([''MP4Box'', ''-splitx'', ''60:120'', ''original.mp4'', ''-out'',
             ''video_segments/original_segment_2.mp4''], 0)]"
    using succeeds [THEN mp, OF all, unfolded sts_b] unfolding cmds_b by simp
  have sa: "statuses ?a (map (split_command main_config 60 ''original'') [0..<3]) 1 = [0, 1, 0]"
    using sts_a by simp
  have sb: "statuses ?b (map (split_command main_config 60 ''original'') [0..<2]) 1 = [0, 0]"
    using sts_b by simp
  from count_a sa a count_b sb b show ?thesis by blast
qed

text \<open>
  Claim C5 says that for every positive segment count \<open>n\<close> Split issues exactly \<open>n\<close>
  invocations. With a video of 90 seconds and a requested duration of 60 the count
  is 2, but when the first split invocation ends with status 1 the loop stops there:
  one split invocation was issued, after the information query of the probe.
\<close>

theorem split_invocations_counterexample:
  "fst (calculate_segment_count (scripted [(0, ''Duration 00.01.30.000''), (1, [])] [])
          (original_video_path main_config) 60 start) = Inr 2
   \<and> spawned (snd (split_videos (scripted [(0, ''Duration 00.01.30.000''), (1, [])] [])
                      main_config 60 start))
       = [([''MP4Box'', ''-info'', ''original.mp4''], 0),
          ([''MP4Box'', ''-splitx'', ''0:60'', ''original.mp4'', ''-out'',
            ''video_segments/original_segment_1.mp4''], 1)]"
  by code_simp

text \<open>
  Claim C5 as amended: for every positive segment count \<open>n\<close> and requested duration
  \<open>d\<close>, when every split invocation ends with status zero, Split returns \<open>True\<close> and
  issues, after the information query of the probe, exactly \<open>n\<close> split invocations;
  the one of index \<open>i\<close> (from 0) has the range \<open>i*d : i*d + d\<close> and an output file named
  after the base name of the source with the suffix \<open>_segment_\<close> and the number
  \<open>i + 1\<close>. A video of 90 seconds with a requested duration of 60 gives the two ranges
  \<open>0:60\<close> and \<open>60:120\<close>.
\<close>

theorem split_commands_when_tool_succeeds:
  assumes count: "calculate_segment_count e (original_video_path cfg) d s = (Inr n, s1)"
    and pos: "0 < n"
    and run: "split_videos e cfg d s = (r, s')"
    and ok: "\<forall>p \<in> set (drop (length (spawned s1)) (spawned s')). snd p = 0"
  shows "r = Inr True
       \<and> map fst (spawned s') = map fst (spawned s)
           @ [''MP4Box'', ''-info'', original_video_path cfg]
           # map (\<lambda>i. [''MP4Box'', ''-splitx'',
                         str_int (int i * d) @ '':'' @ str_int (int i * d + d),
                         original_video_path cfg, ''-out'',
                         path_join (output_directory cfg)
                           (fst (splitext (basename (original_video_path cfg)))
                              @ ''_segment_'' @ str_int (int i + 1) @ ''.mp4'')])
               [0..<nat n]"
proof -
  let ?base = "fst (splitext (basename (original_video_path cfg)))"
  from pos have nz: "n \<noteq> 0" by simp
  from split_videos_run [OF count nz run] obtain b where
    r: "r = Inr b" and loop: "split_loop e cfg d ?base [0..<nat n] s1 = (b, s')"
    by blast
  from split_loop_spawned [OF loop] obtain rcs where
    l: "length rcs \<le> nat n"
    and t: "spawned s' = spawned s1 @ zip (map (split_command cfg d ?base) [0..<nat n]) rcs"
    and y: "b \<longrightarrow> length rcs = length [0..<nat n] \<and> (\<forall>rc \<in> set rcs. rc = 0)"
    and f: "\<not> b \<longrightarrow> rcs \<noteq> [] \<and> last rcs \<noteq> 0"
    by auto
  have rcs0: "\<forall>rc \<in> set rcs. rc = 0"
  proof
    fix rc assume "rc \<in> set rcs"
    then obtain k where k: "k < length rcs" "rcs ! k = rc" by (metis in_set_conv_nth)
    then have "(split_command cfg d ?base k, rc)
                 \<in> set (zip (map (split_command cfg d ?base) [0..<nat n]) rcs)"
      using l by (auto simp: set_zip intro!: exI [of _ k])
    then show "rc = 0" using ok t by auto
  qed
  have b: "b"
  proof (rule ccontr)
    assume "\<not> b"
    with f have "rcs \<noteq> []" "last rcs \<noteq> 0" by simp_all
    then show False using rcs0 last_in_set by blast
  qed
  with y have len: "length rcs = nat n" by simp
  from calculate_segment_count_spawned [OF count]
  have s1: "map fst (spawned s1)
              = map fst (spawned s) @ [[''MP4Box'', ''-info'', original_video_path cfg]]"
    by auto
  have "map fst (zip (map (split_command cfg d ?base) [0..<nat n]) rcs)
          = map (split_command cfg d ?base) [0..<nat n]"
    using len by (simp add: map_fst_zip)
  then have "map fst (spawned s') = map fst (spawned s1)
               @ map (split_command cfg d ?base) [0..<nat n]"
    using t by simp
  then show ?thesis
    using s1 r b by (simp add: split_command_def segment_output_path_def Let_def)
qed

theorem split_commands_when_tool_succeeds_witness:
  "calculate_segment_count (scripted [(0, ''Duration 00.01.30.000'')] [])
      (original_video_path main_config) 60 start
     = (Inr 2, \<lparr>world = 1, spawned = [([''MP4Box'', ''-info'', ''original.mp4''], 0)], logged = []\<rparr>)
   \<and> fst (split_videos (scripted [(0, ''Duration 00.01.30.000'')] []) main_config 60 start) = Inr True
   \<and> map fst (spawned (snd (split_videos (scripted [(0, ''Duration 00.01.30.000'')] []) main_config 60 start)))
       = [[''MP4Box'', ''-info'', ''original.mp4''],
          [''MP4Box'', ''-splitx'', ''0:60'', ''original.mp4'', ''-out'',
           ''video_segments/original_segment_1.mp4''],
          [''MP4Box'', ''-splitx'', ''60:120'', ''original.mp4'', ''-out'',
           ''video_segments/original_segment_2.mp4'']]"
proof -
  let ?e = "scripted [(0, ''Duration 00.01.30.000'')] []"
  let ?s1 = "\<lparr>world = 1::nat, spawned = [([''MP4Box'', ''-info'', ''original.mp4''], 0::int)],
              logged = []\<rparr>"
  have count: "calculate_segment_count ?e (original_video_path main_config) 60 start = (Inr 2, ?s1)"
    by code_simp
  have pos: "(0::int) < 2" by simp
  have run: "split_videos ?e main_config 60 start
               = (fst (split_videos ?e main_config 60 start), snd (split_videos ?e main_config 60 start))"
    by simp
  have ok: "\<forall>p \<in> set (drop (length (spawned ?s1)) (spawned (snd (split_videos ?e main_config 60 start)))).
              snd p = 0"
    by code_simp
  have cmds: "map (\<lambda>i. [''MP4Box'', ''-splitx'',
                         str_int (int i * 60) @ '':'' @ str_int (int i * 60 + 60),
                         original_video_path main_config, ''-out'',
                         path_join (output_directory main_config)
                           (fst (splitext (basename (original_video_path main_config)))
                              @ ''_segment_'' @ str_int (int i + 1) @ ''.mp4'')])
               [0..<nat 2]
     = [[''MP4Box'', ''-splitx'', ''0:60'', ''original.mp4'', ''-out'',
           ''video_segments/original_segment_1.mp4''],
          [''MP4Box'', ''-splitx'', ''60:120'', ''original.mp4'', ''-out'',
           ''video_segments/original_segment_2.mp4'']]"
    by code_simp
  have names: "original_video_path main_config = ''original.mp4''" "spawned start = []"
    by (simp_all add: main_config_def start_def)
  show ?thesis
    using count split_commands_when_tool_succeeds [OF count pos run ok]
    unfolding cmds by (simp add: names)
qed

text \<open>
  Claim C9 says that with a segment count of zero \<open>split_videos\<close> spawns no external
  process. The count comes from the duration probe, which \<open>split_videos\<close> itself runs:
  with an output that has no duration line the count is 0, the result is \<open>False\<close>, and
  one process was started, the information query.
\<close>

theorem split_skipped_spawns_counterexample:
  "fst (calculate_segment_count (scripted [(0, [])] []) (original_video_path main_config) 60 start)
     = Inr 0
   \<and> fst (split_videos (scripted [(0, [])] []) main_config 60 start) = Inr False
   \<and> spawned start = []
   \<and> spawned (snd (split_videos (scripted [(0, [])] []) main_config 60 start))
       = [([''MP4Box'', ''-info'', ''original.mp4''], 0)]"
  by code_simp

text \<open>
  Claim C9 as amended: when the computed segment count is zero, \<open>split_videos\<close> starts
  no process other than the information query of the duration probe, logs that the
  file is skipped and returns \<open>False\<close>; it returns the same \<open>False\<close> when a split
  invocation ends with a status other than zero, so the result does not tell the two
  outcomes apart.
\<close>

theorem split_skipped_or_failed_returns_False:
  assumes count: "calculate_segment_count e (original_video_path cfg) d s = (Inr n, s1)"
    and run: "split_videos e cfg d s = (r, s')"
  shows "(n = 0 \<longrightarrow> r = Inr False
            \<and> spawned s' = spawned s @ [([''MP4Box'', ''-info'', original_video_path cfg], 0)]
            \<and> logged s' = logged s @ [Skipping (original_video_path cfg)])
       \<and> ((\<exists>p \<in> set (drop (length (spawned s1)) (spawned s')). snd p \<noteq> 0) \<longrightarrow> r = Inr False)"
proof (cases "n = 0")
  case True
  from calculate_segment_count_spawned [OF count]
  have s1: "spawned s1 = spawned s @ [([''MP4Box'', ''-info'', original_video_path cfg], 0)]"
    and l1: "logged s1 = logged s"
    by auto
  from True count run
  have "r = Inr False" and "s' = log_msg (Skipping (original_video_path cfg)) s1"
    by (auto simp: split_videos_def)
  then show ?thesis using True s1 l1 by (simp add: log_msg_def)
next
  case False
  let ?base = "fst (splitext (basename (original_video_path cfg)))"
  from split_videos_run [OF count False run] obtain b where
    r: "r = Inr b" and loop: "split_loop e cfg d ?base [0..<nat n] s1 = (b, s')"
    by blast
  from split_loop_spawned [OF loop] obtain rcs where
    t: "spawned s' = spawned s1 @ zip (map (split_command cfg d ?base) [0..<nat n]) rcs"
    and y: "b \<longrightarrow> length rcs = length [0..<nat n] \<and> (\<forall>rc \<in> set rcs. rc = 0)"
    by auto
  have "(\<exists>p \<in> set (drop (length (spawned s1)) (spawned s')). snd p \<noteq> 0) \<longrightarrow> \<not> b"
  proof
    assume "\<exists>p \<in> set (drop (length (spawned s1)) (spawned s')). snd p \<noteq> 0"
    then obtain c rc where
      "(c, rc) \<in> set (zip (map (split_command cfg d ?base) [0..<nat n]) rcs)" "rc \<noteq> 0"
      using t by auto
    then have "rc \<in> set rcs" "rc \<noteq> 0" by (auto dest: set_zip_rightD)
    with y show "\<not> b" by blast
  qed
  with r False show ?thesis by simp
qed

theorem split_skipped_or_failed_returns_False_witness:
  "(calculate_segment_count (scripted [(0, [])] []) (original_video_path main_config) 60 start
      = (Inr 0, \<lparr>world = 1, spawned = [([''MP4Box'', ''-info'', ''original.mp4''], 0)], logged = []\<rparr>)
    \<and> fst (split_videos (scripted [(0, [])] []) main_config 60 start) = Inr False
    \<and> spawned (snd (split_videos (scripted [(0, [])] []) main_config 60 start))
        = [([''MP4Box'', ''-info'', ''original.mp4''], 0)]
    \<and> logged (snd (split_videos (scripted [(0, [])] []) main_config 60 start))
        = [Skipping ''original.mp4''])
   \<and> (calculate_segment_count (scripted [(0, ''Duration 00.01.30.000''), (1, [])] [])
         (original_video_path main_config) 60 start
      = (Inr 2, \<lparr>world = 1, spawned = [([''MP4Box'', ''-info'', ''original.mp4''], 0)], logged = []\<rparr>)
    \<and> (\<exists>p \<in> set (drop 1 (spawned (snd (split_videos
                (scripted [(0, ''Duration 00.01.30.000''), (1, [])] []) main_config 60 start)))).
          snd p \<noteq> 0)
    \<and> fst (split_videos (scripted [(0, ''Duration 00.01.30.000''), (1, [])] []) main_config 60 start)
        = Inr False)"
proof -
  let ?a = "scripted [(0, [])] []"
  let ?b = "scripted [(0, ''Duration 00.01.30.000''), (1, [])] []"
  let ?s1 = "\<lparr>world = 1::nat, spawned = [([''MP4Box'', ''-info'', ''original.mp4''], 0::int)],
              logged = []\<rparr>"
  have count_a: "calculate_segment_count ?a (original_video_path main_config) 60 start = (Inr 0, ?s1)"
    by code_simp
  have run_a: "split_videos ?a main_config 60 start
      = (fst (split_videos ?a main_config 60 start), snd (split_videos ?a main_config 60 start))"
    by simp
  have count_b: "calculate_segment_count ?b (original_video_path main_config) 60 start = (Inr 2, ?s1)"
    by code_simp
  have run_b: "split_videos ?b main_config 60 start
      = (fst (split_videos ?b main_config 60 start), snd (split_videos ?b main_config 60 start))"
    by simp
  have failed: "\<exists>p \<in> set (drop 1 (spawned (snd (split_videos ?b main_config 60 start)))). snd p \<noteq> 0"
    by code_simp
  have names: "original_video_path main_config = ''original.mp4''"
    "spawned start = []" "logged start = []"
    by (simp_all add: main_config_def start_def)
  have a: "fst (split_videos ?a main_config 60 start) = Inr False
    \<and> spawned (snd (split_videos ?a main_config 60 start))
        = [([''MP4Box'', ''-info'', ''original.mp4''], 0)]
    \<and> logged (snd (split_videos ?a main_config 60 start)) = [Skipping ''original.mp4'']"
    using split_skipped_or_failed_returns_False [OF count_a run_a] by (simp add: names)
  have b: "fst (split_videos ?b main_config 60 start) = Inr False"
    using split_skipped_or_failed_returns_False [OF count_b run_b] failed by simp
  from count_a a count_b failed b show ?thesis by blast
qed

subsection \<open>Merging\<close>

text \<open>
  Claim C7: when the listing of the segment directory has no entry that ends in
  \<open>.mp4\<close>, Merge returns \<open>False\<close>, logs that no video files were found, and starts no
  process: the state is the old one with the one message added.
\<close>

theorem merge_without_video_files:
  assumes "\<forall>f \<in> set (listdir e (video_segments cfg) (world s)). \<not> suffix ''.mp4'' f"
  shows "merge_videos e cfg sort_function s = (Inr False, s\<lparr>logged := logged s @ [NoVideoFiles]\<rparr>)"
proof -
  have "filter (suffix ''.mp4'') (listdir e (video_segments cfg) (world s)) = []"
    using assms by (simp add: filter_empty_conv)
  then show ?thesis by (simp add: merge_videos_def get_video_files_def log_msg_def)
qed

theorem merge_without_video_files_witness:
  "filter (suffix ''.mp4'')
     (listdir (scripted [] [''notes.txt'', ''a.mp4.part'']) (video_segments main_config) (world start))
     = []
   \<and> merge_videos (scripted [] [''notes.txt'', ''a.mp4.part'']) main_config numeric_suffix start
       = (Inr False, \<lparr>world = 0, spawned = [], logged = [NoVideoFiles]\<rparr>)"
proof -
  have h: "\<forall>f \<in> set (listdir (scripted [] [''notes.txt'', ''a.mp4.part''])
                        (video_segments main_config) (world start)). \<not> suffix ''.mp4'' f"
    by (simp add: scripted_def suffix_to_prefix)
  then have "filter (suffix ''.mp4'')
     (listdir (scripted [] [''notes.txt'', ''a.mp4.part'']) (video_segments main_config) (world start))
     = []"
    by (simp add: filter_empty_conv)
  then show ?thesis
    using merge_without_video_files [OF h, of numeric_suffix] by (simp add: start_def)
qed

lemma keyed_total:
  "\<forall>x \<in> set xs. f x = Inr (key x) \<Longrightarrow> keyed f xs = Inr (map (\<lambda>x. (key x, x)) xs)"
  by (induction xs) auto

lemma insort_key_decorated:
  "insort_key fst (key x, x) (map (\<lambda>y. (key y, y)) ys)
     = map (\<lambda>y. (key y, y)) (insort_key key x ys)"
  by (induction ys) auto

lemma sort_key_decorated:
  "sort_key fst (map (\<lambda>x. (key x, x)) xs) = map (\<lambda>x. (key x, x)) (sort_key key xs)"
  by (induction xs) (auto simp: insort_key_decorated)

lemma list_sort_total:
  assumes "\<forall>x \<in> set xs. f x = Inr (key x)"
  shows "list_sort f xs = Inr (sort_key key xs)"
  using keyed_total [OF assms]
  by (simp add: list_sort_def sort_key_decorated comp_def)

lemma videos_with_commands_distinct:
  assumes "distinct fs" and "fs \<noteq> []"
  shows "videos_with_commands fs
           = [''-add'', hd fs] @ concat (map (\<lambda>f. [''-cat'', f]) (tl fs))"
proof -
  from assms obtain x rest where fs: "fs = x # rest" and x: "x \<notin> set rest"
    by (cases fs) auto
  have "concat (map (\<lambda>video. if video = x then [''-add'', video] else [''-cat'', video]) rest)
          = concat (map (\<lambda>f. [''-cat'', f]) rest)"
    using x by (induction rest) auto
  then show ?thesis by (simp add: videos_with_commands_def fs)
qed

text \<open>
  Claim C6: for a list of discovered files that is not empty (its paths are pairwise
  distinct, as the entries of a directory are) and a key function that gives a key for
  each of them, Merge sorts the files by their keys, files with equal keys keeping
  their order, and starts one process: MP4Box with \<open>-force-cat\<close>, then \<open>-add\<close> and
  the first sorted file, then \<open>-cat\<close> and each further file, then the output path;
  the result is \<open>True\<close> exactly when that process ends with status zero. The sorted
  list is described by what determines it: it is ordered by key, has the same
  elements, and keeps the order of the files of each key. The files \<open>a_1.mp4\<close>,
  \<open>a_10.mp4\<close>, \<open>a_2.mp4\<close> with the numeric suffix as key come out as \<open>a_1\<close>, \<open>a_2\<close>,
  \<open>a_10\<close>.
\<close>

theorem merge_command_line:
  assumes files: "get_video_files e cfg s = files"
    and nonempty: "files \<noteq> []"
    and dist: "distinct files"
    and keys: "\<forall>f \<in> set files. sort_function f = Inr (key f)"
    and run: "merge_videos e cfg sort_function s = (r, s')"
  shows "\<exists>sorted_files rc.
           sorted (map key sorted_files)
         \<and> mset sorted_files = mset files
         \<and> (\<forall>k. filter (\<lambda>f. key f = k) sorted_files = filter (\<lambda>f. key f = k) files)
         \<and> spawned s' = spawned s
             @ [([''MP4Box'', ''-force-cat'', ''-add'', hd sorted_files]
                   @ concat (map (\<lambda>f. [''-cat'', f]) (tl sorted_files))
                   @ [output_path cfg], rc)]
         \<and> r = Inr (rc = 0)"
proof -
  let ?sorted = "sort_key key files"
  let ?s1 = "if length files = 1 then log_msg OnlyOneVideo s else s"
  let ?s2 = "log_msg (VideoFiles ?sorted) ?s1"
  let ?command = "[''MP4Box'', ''-force-cat''] @ videos_with_commands ?sorted @ [output_path cfg]"
  have ne: "?sorted \<noteq> []" using nonempty by (metis length_sort length_0_conv)
  have vc: "videos_with_commands ?sorted
              = [''-add'', hd ?sorted] @ concat (map (\<lambda>f. [''-cat'', f]) (tl ?sorted))"
    using dist ne by (intro videos_with_commands_distinct) simp_all
  obtain rc out s3 where rp: "run_process e ?command ?s2 = ((rc, out), s3)"
    by (metis prod.exhaust)
  have sp: "spawned s3 = spawned s @ [(?command, rc)]"
    using run_process_spawned [OF rp] by simp
  from run files nonempty list_sort_total [OF keys] rp
  have res: "r = Inr (rc = 0)"
    and st: "s' = (if rc = 0 then log_msg (Merged (output_path cfg)) s3 else log_msg MergeError s3)"
    by (auto simp: merge_videos_def Let_def split: if_splits)
  have "spawned s' = spawned s @ [(?command, rc)]" using st sp by simp
  then have "spawned s' = spawned s
             @ [([''MP4Box'', ''-force-cat'', ''-add'', hd ?sorted]
                   @ concat (map (\<lambda>f. [''-cat'', f]) (tl ?sorted))
                   @ [output_path cfg], rc)]"
    using vc by simp
  moreover have "sorted (map key ?sorted)" by simp
  moreover have "mset ?sorted = mset files" by simp
  moreover have "\<forall>k. filter (\<lambda>f. key f = k) ?sorted = filter (\<lambda>f. key f = k) files"
    by (simp add: sort_key_stable)
  ultimately show ?thesis using res by blast
qed

theorem merge_command_line_witness:
  "get_video_files (scripted [] [''a_1.mp4'', ''a_10.mp4'', ''a_2.mp4'']) main_config start
     = [''video_segments/a_1.mp4'', ''video_segments/a_10.mp4'', ''video_segments/a_2.mp4'']
   \<and> merge_videos (scripted [] [''a_1.mp4'', ''a_10.mp4'', ''a_2.mp4'']) main_config
         numeric_suffix start
     = (Inr True,
        \<lparr>world = 1,
         spawned =
           [([''MP4Box'', ''-force-cat'', ''-add'', ''video_segments/a_1.mp4'',
              ''-cat'', ''video_segments/a_2.mp4'', ''-cat'', ''video_segments/a_10.mp4'',
              ''merged.mp4''], 0)],
         logged =
           [VideoFiles [''video_segments/a_1.mp4'', ''video_segments/a_2.mp4'',
                        ''video_segments/a_10.mp4''],
            Merged ''merged.mp4'']\<rparr>)
   \<and> (\<exists>sorted_files rc.
         sorted (map (\<lambda>f. case numeric_suffix f of Inl err \<Rightarrow> 0 | Inr k \<Rightarrow> k) sorted_files)
       \<and> mset sorted_files
           = mset [''video_segments/a_1.mp4'', ''video_segments/a_10.mp4'',
                   ''video_segments/a_2.mp4'']
       \<and> [([''MP4Box'', ''-force-cat'', ''-add'', ''video_segments/a_1.mp4'',
              ''-cat'', ''video_segments/a_2.mp4'', ''-cat'', ''video_segments/a_10.mp4'',
              ''merged.mp4''], 0::int)]
           = [([''MP4Box'', ''-force-cat'', ''-add'', hd sorted_files]
                 @ concat (map (\<lambda>f. [''-cat'', f]) (tl sorted_files))
                 @ [''merged.mp4''], rc)])"
proof -
  let ?e = "scripted [] [''a_1.mp4'', ''a_10.mp4'', ''a_2.mp4'']"
  let ?files = "[''video_segments/a_1.mp4'', ''video_segments/a_10.mp4'',
                 ''video_segments/a_2.mp4'']"
  let ?key = "\<lambda>f. case numeric_suffix f of Inl err \<Rightarrow> (0::int) | Inr k \<Rightarrow> k"
  have files: "get_video_files ?e main_config start = ?files" by code_simp
  have nonempty: "?files \<noteq> []" by simp
  have dist: "distinct ?files" by simp
  have k: "numeric_suffix ''video_segments/a_1.mp4'' = Inr 1"
    "numeric_suffix ''video_segments/a_10.mp4'' = Inr 10"
    "numeric_suffix ''video_segments/a_2.mp4'' = Inr 2"
    by code_simp+
  have keys: "\<forall>f \<in> set ?files. numeric_suffix f = Inr (?key f)"
    by (simp add: k)
  have run: "merge_videos ?e main_config numeric_suffix start
     = (Inr True,
        \<lparr>world = 1,
         spawned =
           [([''MP4Box'', ''-force-cat'', ''-add'', ''video_segments/a_1.mp4'',
              ''-cat'', ''video_segments/a_2.mp4'', ''-cat'', ''video_segments/a_10.mp4'',
              ''merged.mp4''], 0)],
         logged =
           [VideoFiles [''video_segments/a_1.mp4'', ''video_segments/a_2.mp4'',
                        ''video_segments/a_10.mp4''],
            Merged ''merged.mp4'']\<rparr>)"
    by code_simp
  have names: "output_path main_config = ''merged.mp4''" "spawned start = []"
    by (simp_all add: main_config_def start_def)
  have "\<exists>sorted_files rc.
         sorted (map ?key sorted_files)
       \<and> mset sorted_files = mset ?files
       \<and> [([''MP4Box'', ''-force-cat'', ''-add'', ''video_segments/a_1.mp4'',
              ''-cat'', ''video_segments/a_2.mp4'', ''-cat'', ''video_segments/a_10.mp4'',
              ''merged.mp4''], 0::int)]
           = [([''MP4Box'', ''-force-cat'', ''-add'', hd sorted_files]
                 @ concat (map (\<lambda>f. [''-cat'', f]) (tl sorted_files))
                 @ [''merged.mp4''], rc)]"
    using merge_command_line [OF files nonempty dist keys run]
    unfolding names by (elim exE conjE) (intro exI conjI, assumption, assumption, simp)
  with files run show ?thesis by blast
qed


end
